theory Spec2Isabelle
  imports Complex_Main "HOL-Library.Multiset"
begin

section \<open>Strings\<close>

text \<open>
  A JavaScript string is modelled as a \<^typ>\<open>string\<close>; a character stands for a UTF-16 code
  unit below 256 (the Latin-1 range), and \<open>length\<close> is the \<open>.length\<close> of the source.
\<close>

definition isSpace :: "char \<Rightarrow> bool" where
  \<comment> \<open>the class \<open>\s\<close> of a regular expression and the characters \<open>trim()\<close> removes\<close>
  "isSpace c = ((of_char c :: nat) \<in> {9, 10, 11, 12, 13, 32, 160})"

definition toLowerChar :: "char \<Rightarrow> char" where
  "toLowerChar c =
     (let n = (of_char c :: nat)
      in if (65 \<le> n \<and> n \<le> 90) \<or> (192 \<le> n \<and> n \<le> 222 \<and> n \<noteq> 215)
         then char_of (n + 32) else c)"

definition toLowerCase :: "string \<Rightarrow> string" where
  "toLowerCase s = map toLowerChar s"

definition trim :: "string \<Rightarrow> string" where
  "trim s = rev (dropWhile isSpace (rev (dropWhile isSpace s)))"

fun startsWith :: "string \<Rightarrow> string \<Rightarrow> bool" where
  "startsWith s [] = True"
| "startsWith [] (p # ps) = False"
| "startsWith (c # cs) (p # ps) = (c = p \<and> startsWith cs ps)"

fun includesStr :: "string \<Rightarrow> string \<Rightarrow> bool" where
  \<comment> \<open>\<open>s.includes(x)\<close>: \<open>x\<close> occurs in \<open>s\<close> as a contiguous substring\<close>
  "includesStr [] x = (x = [])"
| "includesStr (c # cs) x = (startsWith (c # cs) x \<or> includesStr cs x)"

fun join :: "string \<Rightarrow> string list \<Rightarrow> string" where
  \<comment> \<open>\<open>xs.join(sep)\<close>\<close>
  "join sep [] = []"
| "join sep [x] = x"
| "join sep (x # y # ys) = x @ sep @ join sep (y # ys)"

function splitOn :: "(char \<Rightarrow> bool) \<Rightarrow> string \<Rightarrow> string \<Rightarrow> string list" where
  \<comment> \<open>\<open>s.split(/[sep]+/)\<close>, with the piece read so far as an accumulator\<close>
  "splitOn sep cur [] = [cur]"
| "splitOn sep cur (c # cs) =
     (if sep c then cur # splitOn sep [] (dropWhile sep cs)
      else splitOn sep (cur @ [c]) cs)"
  by pat_completeness auto
termination
  by (relation "measure (\<lambda>(sep, cur, s). length s)")
     (auto simp: length_dropWhile_le less_Suc_eq_le)

definition uniq :: "'a list \<Rightarrow> 'a list" where
  \<comment> \<open>\<open>[...new Set(xs)]\<close>: the first occurrence of each element, in order\<close>
  "uniq xs = foldl (\<lambda>acc x. if x \<in> set acc then acc else acc @ [x]) [] xs"

section \<open>Keyword extraction\<close>

definition stopWords :: "string list" where
  "stopWords =
     [''i'', ''me'', ''my'', ''your'', ''a'', ''an'', ''the'',
      ''tab'', ''tabs'', ''looking'', ''find'', ''search'', ''show'', ''open'',
      ''for'', ''about'', ''in'', ''on'', ''at'', ''to'', ''from'', ''with'', ''of'',
      ''and'', ''or'', ''but'',
      ''this'', ''that'', ''these'', ''those'',
      ''is'', ''are'', ''was'', ''were'', ''be'', ''been'', ''being'',
      ''have'', ''has'', ''had'', ''do'', ''does'', ''did'',
      ''will'', ''would'', ''should'', ''could'', ''may'', ''might'', ''can'',
      ''want'', ''need'', ''am'', ''try'', ''get'', ''go'', ''see'',
      ''related'', ''some'', ''any'', ''all'', ''where'']"

definition queryWords :: "string \<Rightarrow> string list" where
  \<comment> \<open>\<open>query.toLowerCase().split(/\s+/).filter(Boolean)\<close>\<close>
  "queryWords query = filter (\<lambda>w. w \<noteq> []) (splitOn isSpace [] (toLowerCase query))"

definition isKeyword :: "string \<Rightarrow> bool" where
  "isKeyword word = (word \<notin> set stopWords \<and> length word > 2)"

definition extractKeywords :: "string \<Rightarrow> string list" where
  "extractKeywords query =
     (let words = queryWords query;
          keywords = filter isKeyword words
      in if length keywords = 0 then words else keywords)"

section \<open>Documents\<close>

text \<open>
  The summary record of a tab, as \<open>summarizeBatch\<close> and \<open>getExistingSummaries\<close> build it. A
  missing (falsy) string field is the empty string, which every reader below replaces by the
  same default as the source's \<open>s.field || default\<close>.
\<close>

record tab_summary =
  tab_id :: nat
  title :: string
  url :: string
  summary :: string
  tags :: "string list"

section \<open>Tag search\<close>

record hashtag_query =
  isHashtagSearch :: bool
  hq_tags :: "string list"

definition isTagSeparator :: "char \<Rightarrow> bool" where
  \<comment> \<open>the class \<open>[,\s]\<close>\<close>
  "isTagSeparator c = (c = CHR '','' \<or> isSpace c)"

definition parseHashtagQuery :: "string \<Rightarrow> hashtag_query" where
  "parseHashtagQuery query =
     (let trimmed = trim query;
          hashtags =
            filter (\<lambda>t. t \<noteq> [])
              (map (\<lambda>tag. toLowerCase (drop 1 tag))
                 (filter (\<lambda>word. startsWith word ''#'') (splitOn isTagSeparator [] trimmed)))
      in if includesStr trimmed ''#'' then
           if length hashtags > 0 then \<lparr>isHashtagSearch = True, hq_tags = hashtags\<rparr>
           else \<lparr>isHashtagSearch = False, hq_tags = []\<rparr>
         else \<lparr>isHashtagSearch = False, hq_tags = []\<rparr>)"

definition tagMatch :: "string \<Rightarrow> string \<Rightarrow> bool" where
  \<comment> \<open>the test of the inner loop: \<open>tabTag === searchTag || tabTag.includes(searchTag) || searchTag.includes(tabTag)\<close>\<close>
  "tagMatch tabTag searchTag =
     (tabTag = searchTag \<or> includesStr tabTag searchTag \<or> includesStr searchTag tabTag)"

definition matchSearchTags :: "string list \<Rightarrow> string list \<Rightarrow> string list \<times> nat" where
  \<comment> \<open>the loop over \<open>searchTags\<close>; the inner loop leaves at the first tab tag that matches\<close>
  "matchSearchTags tabTags searchTags =
     foldl (\<lambda>(matchedTags, score) searchTag.
              if list_ex (\<lambda>tabTag. tagMatch tabTag searchTag) tabTags
              then (matchedTags @ [searchTag], score + 10)
              else (matchedTags, score))
       ([], 0) searchTags"

record search_maps =
  results :: "nat list"
  reasonsMap :: "nat \<rightharpoonup> string"
  scoresMap :: "nat \<rightharpoonup> nat"

definition tagSearchStep :: "string list \<Rightarrow> search_maps \<Rightarrow> tab_summary \<Rightarrow> search_maps" where
  "tagSearchStep searchTags st s =
     (let tabTags = map toLowerCase (tags s);
          (matchedTags, score) = matchSearchTags tabTags searchTags
      in if length matchedTags > 0
         then \<lparr>results = results st @ [tab_id s],
               reasonsMap = (reasonsMap st)(tab_id s \<mapsto> ''Matched tags: #'' @ join '', #'' matchedTags),
               scoresMap = (scoresMap st)(tab_id s \<mapsto> score)\<rparr>
         else st)"

definition performTagSearch :: "tab_summary list \<Rightarrow> string list \<Rightarrow> search_maps" where
  \<comment> \<open>the returned id list together with the two maps written to session storage\<close>
  "performTagSearch summaries searchTags =
     foldl (tagSearchStep searchTags)
       \<lparr>results = [], reasonsMap = Map.empty, scoresMap = Map.empty\<rparr> summaries"

text \<open>The tag match in the words of the specification, and the score it promises.\<close>

definition tagMatchesCI :: "string \<Rightarrow> string \<Rightarrow> bool" where
  \<comment> \<open>case-insensitive equality or substring containment in either direction\<close>
  "tagMatchesCI docTag queryTag =
     (let d = toLowerCase docTag; q = toLowerCase queryTag
      in d = q \<or> includesStr d q \<or> includesStr q d)"

definition docMatchesTag :: "tab_summary \<Rightarrow> string \<Rightarrow> bool" where
  "docMatchesTag s queryTag = list_ex (\<lambda>docTag. tagMatchesCI docTag queryTag) (tags s)"

definition distinctMatchedScore :: "tab_summary \<Rightarrow> string list \<Rightarrow> nat" where
  \<comment> \<open>10 times the number of distinct matched query tags\<close>
  "distinctMatchedScore s searchTags = 10 * length (remdups (filter (docMatchesTag s) searchTags))"

definition matchedEntriesScore :: "tab_summary \<Rightarrow> string list \<Rightarrow> nat" where
  \<comment> \<open>10 times the number of entries of the query tag list that match\<close>
  "matchedEntriesScore s searchTags = 10 * length (filter (docMatchesTag s) searchTags)"

section \<open>Semantic selection: validating the model's answer\<close>

text \<open>
  A value read from the model's JSON answer. Only what \<open>tryOnDeviceSelectFromSummaries\<close> tests
  is kept apart: strings, finite numbers (a finite double is a rational), and the rest. Every
  element of the \<open>results\<close> array is an object, as the response schema requires.
\<close>

datatype jsvalue = JUndefined | JNull | JBool bool | JNum rat | JNonFinite | JStr string | JObject

record ai_result =
  ref :: jsvalue
  relevanceScore :: jsvalue
  reason :: jsvalue

record anonymous_tab =
  at_ref :: string
  at_id :: nat
  at_title :: string
  at_summary :: string
  at_tags :: "string list"
  at_url :: string

fun digitsOf :: "nat \<Rightarrow> string" where
  \<comment> \<open>the decimal numeral of a number in a template string\<close>
  "digitsOf n =
     (if n < 10 then [char_of (48 + n)]
      else digitsOf (n div 10) @ [char_of (48 + n mod 10)])"

definition orElse :: "string \<Rightarrow> string \<Rightarrow> string" where
  \<comment> \<open>\<open>s || d\<close> on a string: the empty string is falsy\<close>
  "orElse s d = (if s = [] then d else s)"

definition anonymousTabs :: "tab_summary list \<Rightarrow> anonymous_tab list" where
  "anonymousTabs summaries =
     map (\<lambda>(idx, s).
            \<lparr>at_ref = ''tab'' @ digitsOf (idx + 1),
             at_id = tab_id s,
             at_title = orElse (title s) ''Untitled'',
             at_summary = orElse (summary s) ''No summary'',
             at_tags = tags s,
             at_url = url s\<rparr>)
       (enumerate 0 summaries)"

definition refToTab :: "tab_summary list \<Rightarrow> string \<rightharpoonup> anonymous_tab" where
  "refToTab summaries = foldl (\<lambda>m tab. m(at_ref tab \<mapsto> tab)) Map.empty (anonymousTabs summaries)"

definition refToId :: "tab_summary list \<Rightarrow> string \<rightharpoonup> nat" where
  "refToId summaries = foldl (\<lambda>m tab. m(at_ref tab \<mapsto> at_id tab)) Map.empty (anonymousTabs summaries)"

definition quote :: char where
  "quote = CHR 0x27"

function quotedTexts :: "string \<Rightarrow> string list" where
  \<comment> \<open>\<open>reason.match(/'([^']+)'/g) || []\<close>: the matches from left to right, quotes included\<close>
  "quotedTexts [] = []"
| "quotedTexts (c # cs) =
     (if c = quote then
        (let body = takeWhile (\<lambda>x. x \<noteq> quote) cs;
             rest = dropWhile (\<lambda>x. x \<noteq> quote) cs
         in if body \<noteq> [] \<and> rest \<noteq> []
            then (quote # body @ [quote]) # quotedTexts (tl rest)
            else quotedTexts cs)
      else quotedTexts cs)"
  by pat_completeness auto
termination
proof (relation "measure length")
  fix c :: char and cs body rest
  assume "rest = dropWhile (\<lambda>x. x \<noteq> quote) cs"
  then have "length (tl rest) \<le> length cs"
    using length_dropWhile_le[of "\<lambda>x. x \<noteq> quote" cs] by simp
  then show "(tl rest, c # cs) \<in> measure length" by simp
qed simp_all

definition cleanQuoted :: "string \<Rightarrow> string" where
  \<comment> \<open>\<open>quoted.replace(/'/g, '').toLowerCase().trim()\<close>\<close>
  "cleanQuoted quoted = trim (toLowerCase (filter (\<lambda>x. x \<noteq> quote) quoted))"

definition matchesThisTab :: "anonymous_tab \<Rightarrow> string \<Rightarrow> bool" where
  "matchesThisTab tabData cleanQ =
     (let titleLower = toLowerCase (at_title tabData);
          summaryLower = toLowerCase (at_summary tabData);
          urlLower = toLowerCase (at_url tabData);
          tagsLower = join '' '' (map toLowerCase (at_tags tabData))
      in includesStr titleLower cleanQ \<or> includesStr summaryLower cleanQ \<or>
         includesStr urlLower cleanQ \<or> includesStr tagsLower cleanQ)"

fun foundMatch :: "anonymous_tab \<Rightarrow> string list \<Rightarrow> bool" where
  \<comment> \<open>the loop over the quoted texts: short ones are skipped, the first match ends it\<close>
  "foundMatch tabData [] = False"
| "foundMatch tabData (quoted # rest) =
     (let cleanQ = cleanQuoted quoted
      in if length cleanQ < 5 then foundMatch tabData rest
         else if matchesThisTab tabData cleanQ then True
         else foundMatch tabData rest)"

definition uncertaintyPhrases :: "string list" where
  "uncertaintyPhrases =
     [''but context is'', ''however'', ''but it'', ''although'',
      ''not directly'', ''not exactly'', ''might be'', ''could be'',
      ''possibly'', ''perhaps'', ''may be related'', ''somewhat related'',
      ''loosely related'', ''tangentially'', ''indirectly'',
      ''not quite'', ''not really'', ''unclear'', ''unsure'', ''uncertain'']"

definition keywordMatchRatio :: "string list \<Rightarrow> string \<Rightarrow> rat" where
  \<comment> \<open>a quotient of two array lengths; as doubles, it is below \<open>0.4\<close> (\<open>0.3\<close>) exactly when the
      fraction is below \<open>2/5\<close> (\<open>3/10\<close>)\<close>
  "keywordMatchRatio queryKeywords reasonLower =
     (let foundKeywords = filter (\<lambda>keyword. includesStr reasonLower (toLowerCase keyword)) queryKeywords
      in if length queryKeywords > 0
         then of_nat (length foundKeywords) / of_nat (length queryKeywords)
         else 1)"

definition passFilter ::
  "rat \<Rightarrow> rat \<Rightarrow> (string \<rightharpoonup> anonymous_tab) \<Rightarrow> string list \<Rightarrow> ai_result \<Rightarrow> bool" where
  \<comment> \<open>the body of both \<open>filter\<close> callbacks; they differ in the score floor (6, then 4) and in
      the coverage bound (0.4, then 0.3) only\<close>
  "passFilter minScore minRatio refTab queryKeywords r =
     (case ref r of
        JStr rf \<Rightarrow>
          if rf = [] then False else
          (case relevanceScore r of
             JNum score \<Rightarrow>
               (case reason r of
                  JStr rs \<Rightarrow>
                    if rs = [] then False
                    else if score < minScore then False
                    else
                      (case refTab rf of
                         None \<Rightarrow> False
                       | Some tabData \<Rightarrow>
                           (let reasonLower = toLowerCase rs;
                                quoted = quotedTexts rs
                            in if length quoted > 0 \<and> \<not> foundMatch tabData quoted then False
                               else if list_ex (\<lambda>phrase. includesStr reasonLower phrase) uncertaintyPhrases
                                 then False
                               else if keywordMatchRatio queryKeywords reasonLower < minRatio
                                       \<and> length rs < 50 then False
                               else True))
                | _ \<Rightarrow> False)
           | _ \<Rightarrow> False)
      | _ \<Rightarrow> False)"

definition scoreOf :: "ai_result \<Rightarrow> rat" where
  "scoreOf r = (case relevanceScore r of JNum score \<Rightarrow> score | _ \<Rightarrow> 0)"

definition sortByScore :: "ai_result list \<Rightarrow> ai_result list" where
  \<comment> \<open>\<open>.sort((a, b) => b.relevanceScore - a.relevanceScore)\<close>; the sort is stable\<close>
  "sortByScore rs = sort_key (\<lambda>r. - scoreOf r) rs"

definition validResults :: "tab_summary list \<Rightarrow> string \<Rightarrow> ai_result list \<Rightarrow> ai_result list" where
  "validResults summaries query parsedResults =
     (let queryKeywords = extractKeywords query;
          firstPass = sortByScore
            (filter (passFilter 6 (2 / 5) (refToTab summaries) queryKeywords) parsedResults)
      in if length firstPass = 0
         then sortByScore
            (filter (passFilter 4 (3 / 10) (refToTab summaries) queryKeywords) parsedResults)
         else firstPass)"

datatype model_outcome =
    NoSession
  | AbortedBeforePrompt
  | PromptThrew
  | AbortedAfterPrompt
  | Answered "ai_result list option"

definition refOf :: "ai_result \<Rightarrow> string" where
  "refOf r = (case ref r of JStr rf \<Rightarrow> rf | _ \<Rightarrow> [])"

definition tryOnDeviceSelectFromSummaries ::
  "tab_summary list \<Rightarrow> string \<Rightarrow> model_outcome \<Rightarrow> nat list" where
  \<comment> \<open>\<open>Answered (Some rs)\<close>: the answer parsed to an object whose \<open>results\<close> is the array \<open>rs\<close>;
      \<open>Answered None\<close>: any other answer. Every other outcome returns the empty list.\<close>
  "tryOnDeviceSelectFromSummaries summaries query outcome =
     (case outcome of
        Answered (Some parsedResults) \<Rightarrow>
          List.map_filter (\<lambda>r. refToId summaries (refOf r)) (validResults summaries query parsedResults)
      | _ \<Rightarrow> [])"

section \<open>Lexical scoring\<close>

text \<open>
  \<open>new URL(u)\<close> belongs to the platform. The model takes the parser as a parameter: \<open>None\<close>
  where the constructor throws, the three parts the source reads otherwise.
\<close>

record url_parts =
  protocol :: string
  hostname :: string
  pathname :: string

type_synonym url_parser = "string \<Rightarrow> url_parts option"

fun replaceFirst :: "string \<Rightarrow> string \<Rightarrow> string \<Rightarrow> string" where
  \<comment> \<open>\<open>s.replace(pat, rep)\<close> with a string pattern: the first occurrence only\<close>
  "replaceFirst [] pat rep = (if pat = [] then rep else [])"
| "replaceFirst (c # cs) pat rep =
     (if startsWith (c # cs) pat then rep @ drop (length pat) (c # cs)
      else c # replaceFirst cs pat rep)"

definition urlPartsOf :: "url_parser \<Rightarrow> string \<Rightarrow> string" where
  \<comment> \<open>host without \<open>www.\<close>, a space, the path with \<open>/\<close>, \<open>-\<close> and \<open>_\<close> turned into spaces; the
      whole URL when it does not parse\<close>
  "urlPartsOf parseURL u =
     (case parseURL u of
        Some parts \<Rightarrow>
          toLowerCase
            (replaceFirst (hostname parts) ''www.'' [] @ '' '' @
             map (\<lambda>c. if c = CHR ''/'' \<or> c = CHR ''-'' \<or> c = CHR ''_'' then CHR '' '' else c)
               (pathname parts))
      | None \<Rightarrow> toLowerCase u)"

definition stemSuffixes :: "string list" where
  "stemSuffixes = [''ing'', ''ed'', ''s'', ''es'', ''ship'', ''ships'']"

fun stemScan :: "string \<Rightarrow> string \<Rightarrow> string" where
  \<comment> \<open>the search of \<open>/(?:ing|ed|s|es|ship|ships)$/i\<close>: the leftmost position from which one of
      the alternatives reaches the end; what is before it stays\<close>
  "stemScan kept [] = kept"
| "stemScan kept (c # cs) =
     (if toLowerCase (c # cs) \<in> set stemSuffixes then kept
      else stemScan (kept @ [c]) cs)"

definition stemOf :: "string \<Rightarrow> string" where
  "stemOf word = stemScan [] word"

definition fieldMatch :: "string \<Rightarrow> string \<Rightarrow> string \<Rightarrow> bool" where
  \<comment> \<open>\<open>field.includes(word) || (stem.length >= 3 && field.includes(stem))\<close>\<close>
  "fieldMatch field word stem =
     (includesStr field word \<or> (length stem \<ge> 3 \<and> includesStr field stem))"

record word_score =
  ws_score :: nat
  ws_matchedIn :: "string list"
  ws_matchedWords :: "string list"

definition pushIf :: "bool \<Rightarrow> nat \<Rightarrow> string \<Rightarrow> word_score \<Rightarrow> word_score" where
  \<comment> \<open>\<open>if (m) { score += w; matchedIn.push(name); }\<close>\<close>
  "pushIf m w name acc =
     (if m then acc\<lparr>ws_score := ws_score acc + w, ws_matchedIn := ws_matchedIn acc @ [name]\<rparr>
      else acc)"

definition scoreWord ::
  "bool \<Rightarrow> string \<Rightarrow> string \<Rightarrow> string \<Rightarrow> string \<Rightarrow> string \<Rightarrow> word_score \<Rightarrow> string \<Rightarrow> word_score" where
  \<comment> \<open>one round of the loop over the words in \<open>performFallbackSearch\<close>\<close>
  "scoreWord isAggressive titleL summaryL tagsL urlParts fullText acc word =
     (if length word < 3 then acc
      else
        (let stem = stemOf word;
             titleMatch = fieldMatch titleL word stem;
             summaryMatch = (\<not> isAggressive \<and> fieldMatch summaryL word stem);
             tagMatch = fieldMatch tagsL word stem;
             urlMatch = fieldMatch urlParts word stem;
             fullTextMatch = (isAggressive \<and> fullText \<noteq> [] \<and> fieldMatch fullText word stem);
             acc1 = (if titleMatch \<or> summaryMatch \<or> tagMatch \<or> urlMatch \<or> fullTextMatch
                     then acc\<lparr>ws_matchedWords := ws_matchedWords acc @ [word]\<rparr> else acc)
         in pushIf urlMatch 1 ''url''
              (pushIf fullTextMatch 4 ''content''
                 (pushIf summaryMatch 3 ''summary''
                    (pushIf tagMatch 7 ''tags''
                       (pushIf titleMatch 5 ''title'' acc1))))))"

record scored =
  sc_id :: nat
  sc_score :: nat
  sc_matchedIn :: "string list"
  sc_matchedWords :: "string list"

definition scoreSummary ::
  "url_parser \<Rightarrow> (nat \<times> string) list option \<Rightarrow> string list \<Rightarrow> tab_summary \<Rightarrow> scored" where
  \<comment> \<open>the callback of \<open>summaries.map\<close>; of the object it returns, the fields read later\<close>
  "scoreSummary parseURL fullTextData words s =
     (let isAggressive = (fullTextData \<noteq> None);
          titleL = toLowerCase (title s);
          summaryL = toLowerCase (summary s);
          tagsL = join '' '' (map toLowerCase (tags s));
          urlParts = urlPartsOf parseURL (url s);
          fullText = (case fullTextData of
                        None \<Rightarrow> []
                      | Some ftd \<Rightarrow> (case map_of ftd (tab_id s) of
                                      None \<Rightarrow> [] | Some ft \<Rightarrow> toLowerCase ft));
          acc = foldl (scoreWord isAggressive titleL summaryL tagsL urlParts fullText)
                  \<lparr>ws_score = 0, ws_matchedIn = [], ws_matchedWords = []\<rparr> words
      in \<lparr>sc_id = tab_id s, sc_score = ws_score acc,
          sc_matchedIn = uniq (ws_matchedIn acc), sc_matchedWords = uniq (ws_matchedWords acc)\<rparr>)"

definition minScoreFor :: "string list \<Rightarrow> nat" where
  \<comment> \<open>\<open>Math.max(words.length * 2, 4)\<close>\<close>
  "minScoreFor words = max (length words * 2) 4"

definition sortScored :: "scored list \<Rightarrow> scored list" where
  \<comment> \<open>\<open>scored.sort((a, b) => b.score - a.score)\<close>; the sort is stable\<close>
  "sortScored xs = sort_key (\<lambda>x. - int (sc_score x)) xs"

definition fallbackFiltered ::
  "url_parser \<Rightarrow> tab_summary list \<Rightarrow> string \<Rightarrow> (nat \<times> string) list option \<Rightarrow> scored list" where
  \<comment> \<open>the array \<open>filtered\<close> of \<open>performFallbackSearch\<close>\<close>
  "fallbackFiltered parseURL summaries query fullTextData =
     (let words = extractKeywords query;
          scoredAll = sortScored (map (scoreSummary parseURL fullTextData words) summaries);
          minScore = minScoreFor words
      in filter (\<lambda>x. sc_score x \<ge> minScore) scoredAll)"

definition dquote :: char where
  "dquote = CHR 0x22"

definition fallbackReason :: "scored \<Rightarrow> string" where
  "fallbackReason item =
     ''Matched '' @
     (if length (sc_matchedWords item) > 0
      then [dquote] @ join ([dquote] @ '', '' @ [dquote]) (sc_matchedWords item) @ [dquote] @ '' in ''
      else []) @
     join '', '' (sc_matchedIn item)"

definition performFallbackSearch ::
  "url_parser \<Rightarrow> tab_summary list \<Rightarrow> string \<Rightarrow> (nat \<times> string) list option \<Rightarrow> search_maps" where
  \<comment> \<open>the returned id list together with the two maps written to session storage\<close>
  "performFallbackSearch parseURL summaries query fullTextData =
     (let filtered = fallbackFiltered parseURL summaries query fullTextData
      in \<lparr>results = map sc_id filtered,
          reasonsMap = foldl (\<lambda>m item. m(sc_id item \<mapsto> fallbackReason item)) Map.empty filtered,
          scoresMap = foldl (\<lambda>m item. m(sc_id item \<mapsto> sc_score item)) Map.empty filtered\<rparr>)"

section \<open>Summaries\<close>

fun splitChar :: "char \<Rightarrow> string \<Rightarrow> string \<Rightarrow> string list" where
  \<comment> \<open>\<open>s.split(sep)\<close> with a one-character string separator\<close>
  "splitChar sep cur [] = [cur]"
| "splitChar sep cur (c # cs) =
     (if c = sep then cur # splitChar sep [] cs else splitChar sep (cur @ [c]) cs)"

definition domainTags :: "string \<Rightarrow> string list" where
  \<comment> \<open>the chain of domain patterns; one tag at most\<close>
  "domainTags domain =
     (if includesStr domain ''github'' then [''development'']
      else if includesStr domain ''stackoverflow'' \<or> includesStr domain ''stackexchange'' then [''programming'']
      else if includesStr domain ''youtube'' \<or> includesStr domain ''vimeo'' then [''video'']
      else if includesStr domain ''linkedin'' \<or> includesStr domain ''twitter'' \<or> includesStr domain ''facebook''
        then [''social'']
      else if includesStr domain ''amazon'' \<or> includesStr domain ''ebay'' \<or> includesStr domain ''shop''
        then [''shopping'']
      else if includesStr domain ''gmail'' \<or> includesStr domain ''outlook'' \<or> includesStr domain ''mail''
        then [''email'']
      else if includesStr domain ''docs.google'' \<or> includesStr domain ''office.com'' then [''documents'']
      else if includesStr domain ''calendar'' then [''calendar'']
      else if includesStr domain ''drive.google'' \<or> includesStr domain ''dropbox'' \<or> includesStr domain ''onedrive''
        then [''storage'']
      else if includesStr domain ''news'' \<or> includesStr domain ''cnn'' \<or> includesStr domain ''bbc'' then [''news'']
      else (let domainParts = splitChar CHR ''.'' [] domain
            in if length domainParts > 1 then [hd domainParts] else []))"

definition topicTags :: "string \<Rightarrow> string list" where
  \<comment> \<open>the five tests made on the path and made again on the title\<close>
  "topicTags s =
     (if includesStr s ''insurance'' then [''insurance''] else []) @
     (if includesStr s ''finance'' \<or> includesStr s ''bank'' then [''finance''] else []) @
     (if includesStr s ''health'' \<or> includesStr s ''medical'' then [''health''] else []) @
     (if includesStr s ''education'' \<or> includesStr s ''course'' then [''education''] else []) @
     (if includesStr s ''job'' \<or> includesStr s ''career'' then [''jobs''] else [])"

definition titleOnlyTags :: "string \<Rightarrow> string list" where
  "titleOnlyTags s =
     (if includesStr s ''news'' then [''news''] else []) @
     (if includesStr s ''shop'' \<or> includesStr s ''buy'' then [''shopping''] else []) @
     (if includesStr s ''video'' \<or> includesStr s ''watch'' then [''video''] else []) @
     (if includesStr s ''doc'' \<or> includesStr s ''edit'' then [''documents''] else [])"

definition generateFallbackTags :: "url_parser \<Rightarrow> string \<Rightarrow> string \<Rightarrow> string list" where
  "generateFallbackTags parseURL ttl u =
     (let urlTags =
            (case parseURL u of
               None \<Rightarrow> []
             | Some urlObj \<Rightarrow>
                 domainTags (toLowerCase (replaceFirst (hostname urlObj) ''www.'' [])) @
                 topicTags (toLowerCase (pathname urlObj)));
          titleTags =
            (if ttl \<noteq> [] then topicTags (toLowerCase ttl) @ titleOnlyTags (toLowerCase ttl) else []);
          uniqueTags = uniq (urlTags @ titleTags)
      in take 3 uniqueTags)"

record extracted_item =
  item_id :: nat
  item_title :: string
  item_url :: string
  item_text :: string

text \<open>
  What \<open>safeJsonParse\<close> gives on the model's answer, as far as \<open>summarizeBatch\<close> reads it: a
  falsy result is \<open>None\<close>; otherwise the \<open>summary\<close> property (the empty string when it is
  missing or falsy; a string when present) and the \<open>tags\<close> property when it is an array (of
  strings). The parser itself rests on the platform's \<open>JSON.parse\<close> and is a parameter.
\<close>

record parsed_answer =
  p_summary :: string
  p_tags :: "string list option"

type_synonym json_parser = "string \<Rightarrow> parsed_answer option"

datatype prompt_outcome = PromptFailed | PromptAnswer string

record summary_out =
  out_summary :: string
  out_tags :: "string list"

definition cutAt500 :: "string \<Rightarrow> string" where
  \<comment> \<open>\<open>s.length > maxLength ? s.slice(0, maxLength) + '...' : s\<close> with \<open>maxLength = 500\<close>\<close>
  "cutAt500 s = (if length s > 500 then take 500 s @ ''...'' else s)"

definition aiSummary :: "json_parser \<Rightarrow> prompt_outcome \<Rightarrow> summary_out" where
  \<comment> \<open>the \<open>try\<close> block: a thrown prompt leaves both empty; \<open>PromptAnswer []\<close> is a null or
      empty answer\<close>
  "aiSummary safeJsonParse outcome =
     (case outcome of
        PromptFailed \<Rightarrow> \<lparr>out_summary = [], out_tags = []\<rparr>
      | PromptAnswer raw \<Rightarrow>
          (case safeJsonParse (orElse raw ''{}'') of
             None \<Rightarrow> \<lparr>out_summary = cutAt500 (trim raw), out_tags = []\<rparr>
           | Some parsed \<Rightarrow>
               if p_summary parsed \<noteq> []
               then \<lparr>out_summary = cutAt500 (p_summary parsed),
                     out_tags = (case p_tags parsed of Some ts \<Rightarrow> take 3 ts | None \<Rightarrow> [])\<rparr>
               else \<lparr>out_summary = [], out_tags = []\<rparr>))"

definition summarizeItem ::
  "url_parser \<Rightarrow> json_parser \<Rightarrow> bool \<Rightarrow> prompt_outcome \<Rightarrow> extracted_item \<Rightarrow> tab_summary" where
  \<comment> \<open>the callback of \<open>extracted.map\<close> in \<open>summarizeBatch\<close>; \<open>hasSession\<close>: the session is not null\<close>
  "summarizeItem parseURL safeJsonParse hasSession outcome item =
     (let ai = (if hasSession \<and> item_text item \<noteq> []
                then aiSummary safeJsonParse outcome
                else \<lparr>out_summary = [], out_tags = []\<rparr>);
          final =
            (if out_summary ai = []
             then (let fallbackText = orElse (item_text item) (orElse (item_title item) (item_url item))
                   in \<lparr>out_summary = cutAt500 fallbackText,
                        out_tags = generateFallbackTags parseURL (item_title item) (item_url item)\<rparr>)
             else ai)
      in \<lparr>tab_id = item_id item, title = item_title item, url = item_url item,
          summary = out_summary final, tags = out_tags final\<rparr>)"

definition summarizeBatch ::
  "url_parser \<Rightarrow> json_parser \<Rightarrow> bool \<Rightarrow> (extracted_item \<times> prompt_outcome) list \<Rightarrow> tab_summary list" where
  \<comment> \<open>each extracted item comes with the outcome of its own prompt\<close>
  "summarizeBatch parseURL safeJsonParse hasSession extracted =
     map (\<lambda>(item, outcome). summarizeItem parseURL safeJsonParse hasSession outcome item) extracted"

section \<open>The search handler\<close>

text \<open>
  The part of the popup a search changes: the status line (text and class), the ids given to
  the last \<open>renderResultsList\<close>, the \<open>tabIds\<close> of the stored \<open>aiSearchSession\<close> (\<open>None\<close>:
  no session stored) and the stored \<open>tabResultSources\<close>.

  Cancellation is cooperative: the source reads \<open>signal.aborted\<close> at fixed places. A run is
  given \<open>cancelAt\<close>, the number of the first read that sees the signal aborted (\<open>None\<close>: the
  search is never cancelled); once aborted, the signal stays aborted.
\<close>

datatype result_source = Keyword | AI

record ui_state =
  ui_status :: "string \<times> string"
  ui_shown :: "nat list"
  ui_session :: "nat list option"
  ui_sources :: "nat \<rightharpoonup> result_source"

definition abortedAtCheck :: "nat option \<Rightarrow> nat \<Rightarrow> bool" where
  "abortedAtCheck cancelAt n = (case cancelAt of None \<Rightarrow> False | Some k \<Rightarrow> k \<le> n)"

definition setStatus :: "string \<Rightarrow> string \<Rightarrow> ui_state \<Rightarrow> ui_state" where
  "setStatus msg type ui = ui\<lparr>ui_status := (msg, type)\<rparr>"

definition pluralize :: "string \<Rightarrow> nat \<Rightarrow> string" where
  "pluralize word cnt = (if cnt = 1 then word else word @ ''s'')"

definition markSources :: "result_source \<Rightarrow> nat list \<Rightarrow> nat \<rightharpoonup> result_source" where
  \<comment> \<open>\<open>ids.forEach(id => { resultSources[id] = src; })\<close> on a fresh object\<close>
  "markSources src ids = foldl (\<lambda>m i. m(i \<mapsto> src)) Map.empty ids"

subsection \<open>Aggressive mode\<close>

record tab =
  t_id :: nat
  t_title :: string
  t_url :: string

definition isScriptableUrl :: "url_parser \<Rightarrow> string \<Rightarrow> bool" where
  "isScriptableUrl parseURL u =
     (case parseURL u of
        None \<Rightarrow> False
      | Some parts \<Rightarrow>
          if protocol parts \<noteq> ''http:'' \<and> protocol parts \<noteq> ''https:'' then False
          else if hostname parts = ''chrome.google.com'' \<and> startsWith (pathname parts) ''/webstore'' then False
          else if hostname parts = ''chromewebstore.google.com'' then False
          else if hostname parts = ''chrome.google.com'' then False
          else if protocol parts = ''chrome-extension:'' then False
          else if startsWith (protocol parts) ''chrome'' then False
          else True)"

definition quickWord :: "string \<Rightarrow> string \<Rightarrow> string \<Rightarrow> word_score \<Rightarrow> string \<Rightarrow> word_score" where
  \<comment> \<open>the first loop over the words: title, tags and URL\<close>
  "quickWord titleL tagsL urlParts acc word =
     (if length word < 3 then acc
      else
        (let stem = stemOf word;
             titleMatch = fieldMatch titleL word stem;
             tagMatch = fieldMatch tagsL word stem;
             urlMatch = fieldMatch urlParts word stem;
             acc1 = (if titleMatch \<or> tagMatch \<or> urlMatch
                     then acc\<lparr>ws_matchedWords := ws_matchedWords acc @ [word]\<rparr> else acc)
         in pushIf urlMatch 1 ''url'' (pushIf tagMatch 7 ''tags'' (pushIf titleMatch 5 ''title'' acc1))))"

definition contentWord :: "string \<Rightarrow> word_score \<Rightarrow> string \<Rightarrow> word_score" where
  \<comment> \<open>the second loop over the words: the full text of the page\<close>
  "contentWord fullTextLower acc word =
     (if length word < 3 then acc
      else if fieldMatch fullTextLower word (stemOf word)
      then acc\<lparr>ws_matchedWords := ws_matchedWords acc @ [word],
               ws_score := ws_score acc + 4,
               ws_matchedIn := ws_matchedIn acc @ [''content'']\<rparr>
      else acc)"

record aggressive_state =
  ag_results :: "nat list"
  ag_reasons :: "nat \<rightharpoonup> string"
  ag_scores :: "nat \<rightharpoonup> nat"
  ag_ui :: ui_state

definition progressStatus :: "nat \<Rightarrow> nat \<Rightarrow> nat \<Rightarrow> string" where
  "progressStatus i nTabs found =
     ''Aggressive search: '' @ digitsOf (i + 1) @ ''/'' @ digitsOf nTabs @ '' tabs | Found '' @
     digitsOf found @ '' matches''"

definition acceptTab :: "nat \<Rightarrow> nat \<Rightarrow> tab \<Rightarrow> word_score \<Rightarrow> aggressive_state \<Rightarrow> aggressive_state" where
  \<comment> \<open>the tab reached the threshold: it is pushed, stored and shown at once\<close>
  "acceptTab i nTabs t acc st =
     (let res = ag_results st @ [t_id t];
          reason = ''Matched '' @ [dquote] @ join ([dquote] @ '', '' @ [dquote]) (ws_matchedWords acc) @
                   [dquote] @ '' in '' @ join '', '' (uniq (ws_matchedIn acc))
      in \<lparr>ag_results = res,
          ag_reasons = (ag_reasons st)(t_id t \<mapsto> reason),
          ag_scores = (ag_scores st)(t_id t \<mapsto> ws_score acc),
          ag_ui = setStatus (progressStatus i nTabs (length res)) ''success''
                    ((ag_ui st)\<lparr>ui_sources := markSources Keyword res, ui_shown := res\<rparr>)\<rparr>)"

definition everyTenth :: "nat \<Rightarrow> nat \<Rightarrow> aggressive_state \<Rightarrow> aggressive_state" where
  \<comment> \<open>\<open>if ((i + 1) % 10 === 0) setStatus(...)\<close>\<close>
  "everyTenth i nTabs st =
     (if (i + 1) mod 10 = 0
      then st\<lparr>ag_ui := setStatus (progressStatus i nTabs (length (ag_results st))) ''success'' (ag_ui st)\<rparr>
      else st)"

definition searchTab ::
  "url_parser \<Rightarrow> (nat \<Rightarrow> string) \<Rightarrow> string list \<Rightarrow> nat \<Rightarrow> nat \<Rightarrow> tab \<Rightarrow> tab_summary \<Rightarrow>
   aggressive_state \<Rightarrow> aggressive_state" where
  \<comment> \<open>the body of the loop after the abort check; \<open>pageText\<close> is what \<open>extractFullPageText\<close>
      gives for a tab (the empty string: nothing)\<close>
  "searchTab parseURL pageText words i nTabs t s st =
     (let minScore = minScoreFor words;
          titleL = toLowerCase (title s);
          tagsL = join '' '' (map toLowerCase (tags s));
          urlParts = urlPartsOf parseURL (url s);
          acc = foldl (quickWord titleL tagsL urlParts)
                  \<lparr>ws_score = 0, ws_matchedIn = [], ws_matchedWords = []\<rparr> words
      in if ws_score acc \<ge> minScore then acceptTab i nTabs t acc st
         else if isScriptableUrl parseURL (t_url t) then
           (let st1 = st\<lparr>ag_ui := setStatus
                        (''Aggressive search: '' @ digitsOf (i + 1) @ ''/'' @ digitsOf nTabs @
                         '' tabs | Scanning: '' @ [dquote] @ take 30 (t_title t) @ ''...'' @ [dquote]) []
                        (ag_ui st)\<rparr>;
                fullText = pageText (t_id t)
            in if fullText \<noteq> [] then
                 (let acc2 = foldl (contentWord (toLowerCase fullText)) acc words
                  in if ws_score acc2 \<ge> minScore
                     then everyTenth i nTabs (acceptTab i nTabs t acc2 st1)
                     else everyTenth i nTabs st1)
               else everyTenth i nTabs st1)
         else everyTenth i nTabs st)"

fun aggressiveLoop ::
  "url_parser \<Rightarrow> (nat \<Rightarrow> string) \<Rightarrow> nat option \<Rightarrow> tab_summary list \<Rightarrow> string list \<Rightarrow> nat \<Rightarrow>
   (nat \<times> tab) list \<Rightarrow> aggressive_state \<Rightarrow> aggressive_state" where
  \<comment> \<open>\<open>for (let i = 0; i < tabs.length; i++)\<close> over the tabs with their indices; the read of
      \<open>signal.aborted\<close> in round \<open>i\<close> is check \<open>i\<close>\<close>
  "aggressiveLoop parseURL pageText cancelAt summaries words nTabs [] st = st"
| "aggressiveLoop parseURL pageText cancelAt summaries words nTabs ((i, t) # rest) st =
     (case find (\<lambda>s. tab_id s = t_id t) summaries of
        None \<Rightarrow> aggressiveLoop parseURL pageText cancelAt summaries words nTabs rest st
      | Some s \<Rightarrow>
          if abortedAtCheck cancelAt i
          then st\<lparr>ag_ui := setStatus
                   (''Search aborted. Found '' @ digitsOf (length (ag_results st)) @ '' tabs (searched '' @
                    digitsOf (i + 1) @ ''/'' @ digitsOf nTabs @ '')'') ''success'' (ag_ui st)\<rparr>
          else aggressiveLoop parseURL pageText cancelAt summaries words nTabs rest
                 (searchTab parseURL pageText words i nTabs t s st))"

definition selectAggressive ::
  "url_parser \<Rightarrow> (nat \<Rightarrow> string) \<Rightarrow> nat option \<Rightarrow> tab list \<Rightarrow> tab_summary list \<Rightarrow> string \<Rightarrow>
   ui_state \<Rightarrow> nat list \<times> ui_state" where
  \<comment> \<open>the aggressive branch of \<open>selectFromSummariesWithAIOrFallback\<close>: the returned ids and
      the popup afterwards\<close>
  "selectAggressive parseURL pageText cancelAt tabs summaries query ui =
     (let words = extractKeywords query;
          nTabs = length tabs;
          st0 = \<lparr>ag_results = [], ag_reasons = Map.empty, ag_scores = Map.empty,
                 ag_ui = setStatus (''Aggressive search: 0/'' @ digitsOf nTabs @ '' tabs searched...'') [] ui\<rparr>;
          st = aggressiveLoop parseURL pageText cancelAt summaries words nTabs (enumerate 0 tabs) st0;
          found = ag_results st;
          ui1 = setStatus (''Found '' @ digitsOf (length found) @ '' '' @ pluralize ''tab'' (length found) @
                           '' (searched all '' @ digitsOf nTabs @ '' tabs).'') ''success'' (ag_ui st)
      in (found, ui1\<lparr>ui_sources := markSources Keyword found\<rparr>))"

subsection \<open>Hybrid mode\<close>

definition selectHybrid ::
  "url_parser \<Rightarrow> nat option \<Rightarrow> tab_summary list \<Rightarrow> string \<Rightarrow> model_outcome \<Rightarrow> ui_state \<Rightarrow>
   nat list \<times> ui_state" where
  \<comment> \<open>the normal branch: both searches are started, the keyword search is awaited first; the
      read of \<open>signal.aborted\<close> after it is check 0\<close>
  "selectHybrid parseURL cancelAt summaries query outcome ui =
     (let fallbackIds = results (performFallbackSearch parseURL summaries query None)
      in if abortedAtCheck cancelAt 0 then ([], ui)
         else if length fallbackIds > 0
           then (fallbackIds, ui\<lparr>ui_sources := markSources Keyword fallbackIds\<rparr>)
         else
           (let idsFromAI = tryOnDeviceSelectFromSummaries summaries query outcome
            in if idsFromAI \<noteq> [] then (idsFromAI, ui\<lparr>ui_sources := markSources AI idsFromAI\<rparr>)
               else ([], ui)))"

definition foundStatus :: "nat \<Rightarrow> string" where
  "foundStatus n = ''Found '' @ digitsOf n @ '' '' @ pluralize ''tab'' n @ ''.''"

definition aiReplace :: "nat option \<Rightarrow> nat \<Rightarrow> nat list \<Rightarrow> nat list \<Rightarrow> ui_state \<Rightarrow> ui_state" where
  \<comment> \<open>the callback \<open>aiPromise.then(...)\<close> registered when the keyword search found something;
      \<open>check\<close> is the number of its read of \<open>signal.aborted\<close>\<close>
  "aiReplace cancelAt check fallbackIds idsFromAI ui =
     (if abortedAtCheck cancelAt check then ui
      else if idsFromAI \<noteq> [] then
        (let finalIds = idsFromAI;
             ui1 = ui\<lparr>ui_sources := markSources AI finalIds\<rparr>
         in if length finalIds \<noteq> length fallbackIds \<or>
               \<not> list_all (\<lambda>(a, b). a = b) (zip finalIds fallbackIds)
            then setStatus (foundStatus (length finalIds)) ''success''
                   (ui1\<lparr>ui_shown := finalIds,
                        ui_session := (case ui_session ui1 of
                                         None \<Rightarrow> None | Some old \<Rightarrow> Some finalIds)\<rparr>)
            else setStatus (foundStatus (length finalIds)) ''success'' ui1)
      else ui)"

definition showSelected :: "nat list \<Rightarrow> ui_state \<Rightarrow> ui_state" where
  \<comment> \<open>\<open>handleSearch\<close> after the selection returned and the signal was not aborted\<close>
  "showSelected selectedTabIds ui =
     (if selectedTabIds = []
      then setStatus ''No matching tabs found.'' ''error'' (ui\<lparr>ui_shown := [], ui_session := None\<rparr>)
      else
        (let ui1 = ui\<lparr>ui_shown := selectedTabIds, ui_session := Some selectedTabIds\<rparr>;
             aiCount = length (filter (\<lambda>i. ui_sources ui i = Some AI) selectedTabIds);
             keywordCount = length (filter (\<lambda>i. ui_sources ui i = Some Keyword) selectedTabIds)
         in if aiCount > 0 \<and> keywordCount > 0
            then setStatus (''Found '' @ digitsOf (length selectedTabIds) @ '' '' @
                            pluralize ''tab'' (length selectedTabIds) @ '' ('' @ digitsOf aiCount @
                            '' AI, '' @ digitsOf keywordCount @ '' keyword).'') ''success'' ui1
            else if keywordCount > 0 then setStatus ''Searching with AI...'' [] ui1
            else setStatus (foundStatus (length selectedTabIds)) ''success'' ui1))"

subsection \<open>The selection and its caller\<close>

text \<open>
  In the default mode the selection registers the callback on the model's answer and returns
  the keyword ids; \<open>handleSearch\<close> then shows them and stores the session. Nothing in the
  source orders the callback against that display: it runs when the model has answered. The
  model takes the order as part of the environment, with the callback and the display each as
  one step: the answer is handled after the display, or before it.
\<close>

datatype answer_time = AnswerAfterDisplay | AnswerBeforeDisplay

record search_flags =
  aggressiveSearchEnabled :: bool
  aiOnlyEnabled :: bool

record search_env =
  env_parseURL :: url_parser
  env_pageText :: "nat \<Rightarrow> string"
  env_flags :: search_flags
  env_tabs :: "tab list"
  env_outcome :: model_outcome
  env_cancelAt :: "nat option"
  env_answer :: answer_time

record selection =
  sel_ids :: "nat list"
  sel_ui :: ui_state
  sel_pending :: "nat list option"

definition selectFromSummariesWithAIOrFallback ::
  "search_env \<Rightarrow> tab_summary list \<Rightarrow> string \<Rightarrow> ui_state \<Rightarrow> selection" where
  \<comment> \<open>the four branches in the order of the source: hashtag query, aggressive mode, AI-only
      mode, the default mode. \<open>sel_pending\<close> holds the keyword ids when the callback on the
      model's answer was registered.\<close>
  "selectFromSummariesWithAIOrFallback env summaries query ui =
     (let hashtagQuery = parseHashtagQuery query
      in if isHashtagSearch hashtagQuery then
           (let res = results (performTagSearch summaries (hq_tags hashtagQuery))
            in \<lparr>sel_ids = res, sel_ui = ui\<lparr>ui_sources := markSources Keyword res\<rparr>, sel_pending = None\<rparr>)
         else if aggressiveSearchEnabled (env_flags env) then
           (let (found, ui1) = selectAggressive (env_parseURL env) (env_pageText env) (env_cancelAt env)
                                 (env_tabs env) summaries query ui
            in \<lparr>sel_ids = found, sel_ui = ui1, sel_pending = None\<rparr>)
         else if aiOnlyEnabled (env_flags env) then
           (let idsFromAI = tryOnDeviceSelectFromSummaries summaries query (env_outcome env)
            in if idsFromAI \<noteq> []
               then \<lparr>sel_ids = idsFromAI, sel_ui = ui\<lparr>ui_sources := markSources AI idsFromAI\<rparr>,
                     sel_pending = None\<rparr>
               else \<lparr>sel_ids = [], sel_ui = ui, sel_pending = None\<rparr>)
         else
           (let (ids, ui1) = selectHybrid (env_parseURL env) (env_cancelAt env) summaries query
                               (env_outcome env) ui;
                fallbackIds = results (performFallbackSearch (env_parseURL env) summaries query None)
            in \<lparr>sel_ids = ids, sel_ui = ui1,
                sel_pending = (if \<not> abortedAtCheck (env_cancelAt env) 0 \<and> length fallbackIds > 0
                               then Some fallbackIds else None)\<rparr>))"

definition handleSearch :: "search_env \<Rightarrow> tab_summary list \<Rightarrow> string \<Rightarrow> ui_state \<Rightarrow> ui_state" where
  \<comment> \<open>\<open>handleSearch\<close> on the text of the input field, for tabs already listed and summaries
      already fetched: the guard on the empty query, the selection, then the read of the signal
      (check \<open>length tabs\<close> after the aggressive loop) and the display. With a callback
      registered, the display (check 1) comes before the callback (check 2) when the answer is
      handled after the display, and the callback (check 1) before the display (check 2)
      otherwise.\<close>
  "handleSearch env summaries input ui =
     (let query = trim input
      in if query = [] then setStatus ''Please enter a search query.'' ''error'' ui
         else
           (let sel = selectFromSummariesWithAIOrFallback env summaries query ui;
                inLoop = (\<not> isHashtagSearch (parseHashtagQuery query) \<and>
                          aggressiveSearchEnabled (env_flags env));
                display = (\<lambda>check u. if abortedAtCheck (env_cancelAt env) check then u
                                      else showSelected (sel_ids sel) u)
            in case sel_pending sel of
                 None \<Rightarrow> display (if inLoop then length (env_tabs env) else 1) (sel_ui sel)
               | Some fallbackIds \<Rightarrow>
                   (let idsFromAI = tryOnDeviceSelectFromSummaries summaries query (env_outcome env)
                    in case env_answer env of
                         AnswerAfterDisplay \<Rightarrow>
                           aiReplace (env_cancelAt env) 2 fallbackIds idsFromAI (display 1 (sel_ui sel))
                       | AnswerBeforeDisplay \<Rightarrow>
                           display 2 (aiReplace (env_cancelAt env) 1 fallbackIds idsFromAI (sel_ui sel)))))"

section \<open>Example inputs\<close>

definition docMDN :: tab_summary where
  "docMDN = \<lparr>tab_id = 1, title = ''MDN Web Docs'', url = ''https://developer.mozilla.org/en-US/'',
              summary = ''Resources for developers'', tags = [''WebDev'', ''docs'']\<rparr>"

definition docNews :: tab_summary where
  "docNews = \<lparr>tab_id = 2, title = ''Daily News'', url = ''https://news.example.com/'',
               summary = ''Headlines of the day'', tags = [''js'']\<rparr>"

definition docJS :: tab_summary where
  "docJS = \<lparr>tab_id = 7, title = ''JavaScript tutorial'', url = ''https://javascript.info/'',
             summary = ''A modern tutorial'', tags = [''javascript'', ''tutorial'']\<rparr>"

definition inQuotes :: "string \<Rightarrow> string" where
  "inQuotes s = quote # s @ [quote]"

definition candTwoQuotes :: ai_result where
  \<comment> \<open>one quotation from the document, one that is nowhere in it\<close>
  "candTwoQuotes =
     \<lparr>ref = JStr ''tab1'', relevanceScore = JNum 10,
      reason = JStr (''Keywords: '' @ inQuotes ''javascript'' @ '' in title: '' @ inQuotes ''python course'')\<rparr>"

definition candShortQuotes :: ai_result where
  "candShortQuotes =
     \<lparr>ref = JStr ''tab1'', relevanceScore = JNum 10,
      reason = JStr (''Keywords: javascript tutorial in tags: '' @ inQuotes ''java'')\<rparr>"

definition candUngrounded :: ai_result where
  "candUngrounded =
     \<lparr>ref = JStr ''tab1'', relevanceScore = JNum 10,
      reason = JStr (''Keywords: javascript tutorial in title: '' @ inQuotes ''python course'')\<rparr>"

definition tabJS :: anonymous_tab where
  \<comment> \<open>\<open>docJS\<close> as the prompt lists it\<close>
  "tabJS = \<lparr>at_ref = ''tab1'', at_id = 7, at_title = ''JavaScript tutorial'',
             at_summary = ''A modern tutorial'', at_tags = [''javascript'', ''tutorial''],
             at_url = ''https://javascript.info/''\<rparr>"

definition candGrounded :: ai_result where
  "candGrounded =
     \<lparr>ref = JStr ''tab1'', relevanceScore = JNum 7,
      reason = JStr (''Keywords: javascript tutorial in title: '' @ inQuotes ''JavaScript tutorial'')\<rparr>"

definition candLoose :: ai_result where
  "candLoose =
     \<lparr>ref = JStr ''tab1'', relevanceScore = JNum 5,
      reason = JStr (''Keywords: javascript in tags: '' @ inQuotes ''javascript'')\<rparr>"

definition exampleURL :: url_parser where
  \<comment> \<open>what \<open>new URL\<close> gives on the URLs of the example documents; it throws on the empty string\<close>
  "exampleURL u =
     (if u = ''https://javascript.info/''
        then Some \<lparr>protocol = ''https:'', hostname = ''javascript.info'', pathname = ''/''\<rparr>
      else if u = ''https://developer.mozilla.org/en-US/''
        then Some \<lparr>protocol = ''https:'', hostname = ''developer.mozilla.org'', pathname = ''/en-US/''\<rparr>
      else if u = ''https://news.example.com/''
        then Some \<lparr>protocol = ''https:'', hostname = ''news.example.com'', pathname = ''/''\<rparr>
      else None)"

definition longPage :: extracted_item where
  \<comment> \<open>a page whose text has 501 characters\<close>
  "longPage = \<lparr>item_id = 3, item_title = ''Shop news'', item_url = ''https://news.example.com/'',
                item_text = replicate 501 CHR ''a''\<rparr>"

definition noParse :: json_parser where
  "noParse raw = None"

definition exampleParse :: json_parser where
  \<comment> \<open>the parse of an answer with a summary and five tags, whatever the text\<close>
  "exampleParse raw =
     Some \<lparr>p_summary = ''A page about shopping'',
           p_tags = Some [''shopping'', ''news'', ''deals'', ''retail'', ''offers'']\<rparr>"

definition blankUI :: ui_state where
  "blankUI = \<lparr>ui_status = ([], []), ui_shown = [], ui_session = None, ui_sources = Map.empty\<rparr>"

definition tabOf :: "tab_summary \<Rightarrow> tab" where
  "tabOf s = \<lparr>t_id = tab_id s, t_title = title s, t_url = url s\<rparr>"

definition noPageText :: "nat \<Rightarrow> string" where
  "noPageText i = []"

definition exampleEnv :: "bool \<Rightarrow> tab_summary list \<Rightarrow> model_outcome \<Rightarrow> nat option \<Rightarrow> search_env" where
  \<comment> \<open>aggressive mode on or off, one tab for each summary, the model's answer handled after
      the display\<close>
  "exampleEnv aggressive summaries outcome cancelAt =
     \<lparr>env_parseURL = exampleURL, env_pageText = noPageText,
      env_flags = \<lparr>aggressiveSearchEnabled = aggressive, aiOnlyEnabled = False\<rparr>,
      env_tabs = map tabOf summaries, env_outcome = outcome, env_cancelAt = cancelAt,
      env_answer = AnswerAfterDisplay\<rparr>"



definition longParse :: json_parser where
  \<comment> \<open>the parse of an answer whose summary has 501 characters\<close>
  "longParse raw = Some \<lparr>p_summary = replicate 501 CHR ''b'', p_tags = Some [''one'', ''two'']\<rparr>"

section \<open>Facts about the string operations\<close>

lemma isSpace_toLowerChar: "isSpace (toLowerChar c) = isSpace c"
  by (auto simp: isSpace_def toLowerChar_def Let_def)

lemma splitOn_tokens_nonempty:
  "filter (\<lambda>w. w \<noteq> []) (splitOn sep cur s) \<noteq> [] \<longleftrightarrow> cur \<noteq> [] \<or> (\<exists>c\<in>set s. \<not> sep c)"
proof (induction sep cur s rule: splitOn.induct)
  case (1 sep cur)
  show ?case by simp
next
  case (2 sep cur c cs)
  show ?case
  proof (cases "sep c")
    case True
    have "(\<exists>x\<in>set (dropWhile sep cs). \<not> sep x) = (\<exists>x\<in>set cs. \<not> sep x)"
      by (induction cs) auto
    with True 2 show ?thesis by auto
  next
    case False
    with 2 show ?thesis by auto
  qed
qed

lemma toLowerChar_idem: "toLowerChar (toLowerChar c) = toLowerChar c"
  by (auto simp: toLowerChar_def Let_def)

lemma toLowerCase_idem: "toLowerCase (toLowerCase s) = toLowerCase s"
  by (simp add: toLowerCase_def toLowerChar_idem)

lemma startsWith_iff: "startsWith s p \<longleftrightarrow> (\<exists>ss. s = p @ ss)"
  by (induction s p rule: startsWith.induct) auto

text \<open>\<open>includesStr\<close> is the occurrence of a contiguous substring.\<close>

lemma includesStr_iff: "includesStr s x \<longleftrightarrow> (\<exists>ps ss. s = ps @ x @ ss)"
proof (induction s)
  case Nil
  show ?case by auto
next
  case (Cons c cs)
  show ?case
  proof
    assume "includesStr (c # cs) x"
    then consider "startsWith (c # cs) x" | "includesStr cs x" by auto
    then show "\<exists>ps ss. c # cs = ps @ x @ ss"
    proof cases
      case 1
      then obtain ss where "c # cs = x @ ss" by (auto simp: startsWith_iff)
      then have "c # cs = [] @ x @ ss" by simp
      then show ?thesis by blast
    next
      case 2
      with Cons.IH obtain ps ss where "cs = ps @ x @ ss" by blast
      then have "c # cs = (c # ps) @ x @ ss" by simp
      then show ?thesis by blast
    qed
  next
    assume "\<exists>ps ss. c # cs = ps @ x @ ss"
    then obtain ps ss where eq: "c # cs = ps @ x @ ss" by blast
    show "includesStr (c # cs) x"
    proof (cases ps)
      case Nil
      with eq have "startsWith (c # cs) x" by (auto simp: startsWith_iff)
      then show ?thesis by simp
    next
      case (Cons p ps')
      with eq have "cs = ps' @ x @ ss" by simp
      with Cons.IH have "includesStr cs x" by blast
      then show ?thesis by simp
    qed
  qed
qed

section \<open>Keyword extraction never comes back empty\<close>

text \<open>
  C8. For a query with at least one non-whitespace character, \<open>extractKeywords\<close> returns a
  non-empty list of terms; when the stop-word and length filter removes every token, the result
  is the unfiltered list of lower-case tokens.
\<close>

theorem extractKeywords_nonempty:
  assumes "\<exists>c\<in>set query. \<not> isSpace c"
  shows "extractKeywords query \<noteq> []
       \<and> (filter isKeyword (queryWords query) = [] \<longrightarrow> extractKeywords query = queryWords query)"
proof -
  from assms have "\<exists>c\<in>set (toLowerCase query). \<not> isSpace c"
    by (auto simp: toLowerCase_def isSpace_toLowerChar)
  then have "queryWords query \<noteq> []"
    unfolding queryWords_def by (simp add: splitOn_tokens_nonempty)
  then show ?thesis
    by (auto simp: extractKeywords_def Let_def)
qed

theorem extractKeywords_nonempty_witness:
  "(\<exists>c\<in>set '' to  be ''. \<not> isSpace c)
   \<and> filter isKeyword (queryWords '' to  be '') = []
   \<and> extractKeywords '' to  be '' = [''to'', ''be'']"
proof -
  have h: "\<exists>c\<in>set '' to  be ''. \<not> isSpace c" by code_simp
  have f: "filter isKeyword (queryWords '' to  be '') = []" by code_simp
  have w: "queryWords '' to  be '' = [''to'', ''be'']" by code_simp
  from extractKeywords_nonempty[OF h] f w h show ?thesis by simp
qed

section \<open>Tag search\<close>

lemma matchSearchTags_foldl:
  "foldl (\<lambda>(matchedTags, score) searchTag.
              if P searchTag
              then (matchedTags @ [searchTag], score + 10)
              else (matchedTags, score)) (m, sc) qs
   = (m @ filter P qs, sc + 10 * length (filter P qs))"
  by (induction qs arbitrary: m sc) auto

lemma matchSearchTags_eq:
  "matchSearchTags tabTags searchTags =
     (filter (\<lambda>q. list_ex (\<lambda>t. tagMatch t q) tabTags) searchTags,
      10 * length (filter (\<lambda>q. list_ex (\<lambda>t. tagMatch t q) tabTags) searchTags))"
  unfolding matchSearchTags_def by (simp add: matchSearchTags_foldl)

lemma tagMatch_lower:
  "toLowerCase q = q \<Longrightarrow> tagMatch (toLowerCase t) q = tagMatchesCI t q"
  by (simp add: tagMatch_def tagMatchesCI_def Let_def)

lemma list_ex_tagMatch_lower:
  "toLowerCase q = q \<Longrightarrow>
   list_ex (\<lambda>t. tagMatch t q) (map toLowerCase ts) = list_ex (\<lambda>t. tagMatchesCI t q) ts"
  by (simp add: list_ex_iff tagMatch_lower)

lemma matched_filter_lower:
  assumes "\<forall>q\<in>set searchTags. toLowerCase q = q"
  shows "filter (\<lambda>q. list_ex (\<lambda>t. tagMatch t q) (map toLowerCase (tags s))) searchTags
       = filter (docMatchesTag s) searchTags"
  using assms by (intro filter_cong) (auto simp: docMatchesTag_def list_ex_tagMatch_lower)

lemma tagSearchStep_eq:
  assumes "\<forall>q\<in>set searchTags. toLowerCase q = q"
  shows "tagSearchStep searchTags st s =
     (if \<exists>q\<in>set searchTags. docMatchesTag s q
      then \<lparr>results = results st @ [tab_id s],
            reasonsMap = (reasonsMap st)(tab_id s \<mapsto> ''Matched tags: #'' @ join '', #'' (filter (docMatchesTag s) searchTags)),
            scoresMap = (scoresMap st)(tab_id s \<mapsto> matchedEntriesScore s searchTags)\<rparr>
      else st)"
proof -
  have m: "matchSearchTags (map toLowerCase (tags s)) searchTags =
      (filter (docMatchesTag s) searchTags, 10 * length (filter (docMatchesTag s) searchTags))"
    by (simp only: matchSearchTags_eq matched_filter_lower[OF assms])
  show ?thesis
    unfolding tagSearchStep_def Let_def m
    by (auto simp: matchedEntriesScore_def filter_empty_conv)
qed

lemma results_tagSearchStep:
  assumes "\<forall>q\<in>set searchTags. toLowerCase q = q"
  shows "results (tagSearchStep searchTags st s) =
         results st @ (if \<exists>q\<in>set searchTags. docMatchesTag s q then [tab_id s] else [])"
  by (simp add: tagSearchStep_eq[OF assms])

lemma scoresMap_tagSearchStep:
  assumes "\<forall>q\<in>set searchTags. toLowerCase q = q"
  shows "scoresMap (tagSearchStep searchTags st s) k =
         (if k = tab_id s \<and> (\<exists>q\<in>set searchTags. docMatchesTag s q)
          then Some (matchedEntriesScore s searchTags) else scoresMap st k)"
  by (auto simp: tagSearchStep_eq[OF assms])

lemma results_tagSearch_foldl:
  assumes "\<forall>q\<in>set searchTags. toLowerCase q = q"
  shows "results (foldl (tagSearchStep searchTags) st xs) =
         results st @ map tab_id (filter (\<lambda>s. \<exists>q\<in>set searchTags. docMatchesTag s q) xs)"
  by (induction xs arbitrary: st) (simp_all add: results_tagSearchStep[OF assms])

lemma scoresMap_tagSearch_other:
  assumes "\<forall>q\<in>set searchTags. toLowerCase q = q" and "k \<notin> tab_id ` set xs"
  shows "scoresMap (foldl (tagSearchStep searchTags) st xs) k = scoresMap st k"
  using assms(2)
  by (induction xs arbitrary: st) (auto simp: scoresMap_tagSearchStep[OF assms(1)])

lemma scoresMap_tagSearch_foldl:
  assumes "\<forall>q\<in>set searchTags. toLowerCase q = q"
    and "distinct (map tab_id xs)" and "s \<in> set xs"
  shows "scoresMap (foldl (tagSearchStep searchTags) st xs) (tab_id s) =
         (if \<exists>q\<in>set searchTags. docMatchesTag s q
          then Some (matchedEntriesScore s searchTags) else scoresMap st (tab_id s))"
  using assms(2,3)
proof (induction xs arbitrary: st)
  case Nil
  then show ?case by simp
next
  case (Cons x xs)
  show ?case
  proof (cases "s = x")
    case True
    with Cons.prems have "tab_id s \<notin> tab_id ` set xs" by auto
    with True show ?thesis
      by (simp add: scoresMap_tagSearch_other[OF assms(1)] scoresMap_tagSearchStep[OF assms(1)])
  next
    case False
    with Cons.prems have sx: "s \<in> set xs" and dx: "distinct (map tab_id xs)"
      and nx: "tab_id x \<notin> tab_id ` set xs"
      by auto
    from sx nx have "tab_id s \<noteq> tab_id x"
      by (metis imageI)
    with sx dx Cons.IH[of "tagSearchStep searchTags st x"] show ?thesis
      by (simp add: scoresMap_tagSearchStep[OF assms(1)])
  qed
qed

lemma parseHashtagQuery_lower:
  "\<forall>q\<in>set (hq_tags (parseHashtagQuery query)). toLowerCase q = q"
  by (auto simp: parseHashtagQuery_def Let_def toLowerCase_idem)

text \<open>
  C7 (as amended). For query tags in lower case, as \<open>parseHashtagQuery\<close> produces them, and
  documents with pairwise different ids, \<open>performTagSearch\<close> returns, in document order, exactly
  the documents one of whose tags matches a query tag by case-insensitive equality or substring
  containment in either direction; there is no score threshold. The score stored for an included
  document is 10 times the number of entries of the query tag list that match, which is 10 times
  the number of distinct matched query tags when no tag is repeated in the query. A document
  tagged \<open>webdev\<close> matches the query tag \<open>web\<close>; one tagged \<open>js\<close> does not match \<open>javascript\<close>.
\<close>

theorem performTagSearch_matches:
  assumes "\<forall>q\<in>set searchTags. toLowerCase q = q"
    and "distinct (map tab_id summaries)"
  shows "results (performTagSearch summaries searchTags) =
           map tab_id (filter (\<lambda>s. \<exists>q\<in>set searchTags. docMatchesTag s q) summaries)
       \<and> (\<forall>s\<in>set summaries.
            scoresMap (performTagSearch summaries searchTags) (tab_id s) =
              (if \<exists>q\<in>set searchTags. docMatchesTag s q
               then Some (matchedEntriesScore s searchTags) else None))
       \<and> (distinct searchTags \<longrightarrow>
            (\<forall>s. matchedEntriesScore s searchTags = distinctMatchedScore s searchTags))
       \<and> tagMatchesCI ''webdev'' ''web'' \<and> \<not> tagMatchesCI ''js'' ''javascript''"
proof -
  have r: "results (performTagSearch summaries searchTags) =
           map tab_id (filter (\<lambda>s. \<exists>q\<in>set searchTags. docMatchesTag s q) summaries)"
    unfolding performTagSearch_def by (simp add: results_tagSearch_foldl[OF assms(1)])
  have sc: "\<forall>s\<in>set summaries.
            scoresMap (performTagSearch summaries searchTags) (tab_id s) =
              (if \<exists>q\<in>set searchTags. docMatchesTag s q
               then Some (matchedEntriesScore s searchTags) else None)"
    unfolding performTagSearch_def
    by (simp add: scoresMap_tagSearch_foldl[OF assms])
  have d: "distinct searchTags \<longrightarrow>
            (\<forall>s. matchedEntriesScore s searchTags = distinctMatchedScore s searchTags)"
    by (simp add: matchedEntriesScore_def distinctMatchedScore_def distinct_remdups_id)
  have e1: "tagMatchesCI ''webdev'' ''web''" by code_simp
  have e2: "\<not> tagMatchesCI ''js'' ''javascript''" by code_simp
  from r sc d e1 e2 show ?thesis by blast
qed

text \<open>The theorem at the query \<open>#web #javascript\<close> over two documents.\<close>

theorem performTagSearch_matches_witness:
  "map toLowerCase [''web'', ''javascript''] = [''web'', ''javascript'']
   \<and> distinct (map tab_id [docMDN, docNews])
   \<and> distinct [''web'', ''javascript'']
   \<and> results (performTagSearch [docMDN, docNews] [''web'', ''javascript'']) = [1]
   \<and> scoresMap (performTagSearch [docMDN, docNews] [''web'', ''javascript'']) 1 = Some 10
   \<and> scoresMap (performTagSearch [docMDN, docNews] [''web'', ''javascript'']) 2 = None
   \<and> distinctMatchedScore docMDN [''web'', ''javascript''] = 10"
proof -
  have h0: "map toLowerCase [''web'', ''javascript''] = [''web'', ''javascript'']" by code_simp
  then have h1: "\<forall>q\<in>set [''web'', ''javascript'']. toLowerCase q = q" by simp
  have h2: "distinct (map tab_id [docMDN, docNews])" by code_simp
  have h3: "distinct [''web'', ''javascript'']" by simp
  have m1: "docMatchesTag docMDN ''web''" by code_simp
  have m2: "\<not> docMatchesTag docMDN ''javascript''" by code_simp
  have m3: "\<not> docMatchesTag docNews ''web''" by code_simp
  have m4: "\<not> docMatchesTag docNews ''javascript''" by code_simp
  have i1: "tab_id docMDN = 1" "tab_id docNews = 2" by (simp_all add: docMDN_def docNews_def)
  have d: "distinctMatchedScore docMDN [''web'', ''javascript''] = 10" by code_simp
  from performTagSearch_matches[OF h1 h2] h0 h2 h3 m1 m2 m3 m4 i1 d show ?thesis
    by (simp add: matchedEntriesScore_def)
qed

text \<open>
  The query \<open>#web #web\<close> repeats a tag: the document tagged \<open>WebDev\<close> is stored with score 20,
  while 10 times the number of distinct matched query tags is 10.
\<close>

theorem performTagSearch_distinct_score_counterexample:
  "hq_tags (parseHashtagQuery ''#web #web'') = [''web'', ''web'']
   \<and> scoresMap (performTagSearch [docMDN] [''web'', ''web'']) (tab_id docMDN) = Some 20
   \<and> distinctMatchedScore docMDN [''web'', ''web''] = 10"
  by code_simp

section \<open>Semantic validation\<close>

lemma foundMatch_iff:
  "foundMatch tabData qs \<longleftrightarrow>
     (\<exists>q\<in>set qs. 5 \<le> length (cleanQuoted q) \<and> matchesThisTab tabData (cleanQuoted q))"
  by (induction qs) (auto simp: Let_def)

lemma passFilter_fields:
  assumes "passFilter minScore minRatio refTab kws r"
  obtains rf sc rs tabData where
    "ref r = JStr rf" "rf \<noteq> []" "relevanceScore r = JNum sc" "minScore \<le> sc"
    "reason r = JStr rs" "rs \<noteq> []" "refTab rf = Some tabData"
    "quotedTexts rs = [] \<or> foundMatch tabData (quotedTexts rs)"
    "\<not> list_ex (\<lambda>phrase. includesStr (toLowerCase rs) phrase) uncertaintyPhrases"
    "\<not> (keywordMatchRatio kws (toLowerCase rs) < minRatio \<and> length rs < 50)"
  using assms unfolding passFilter_def
  by (auto simp: Let_def split: jsvalue.splits if_splits option.splits)

lemma passFilter_score:
  "passFilter minScore minRatio refTab kws r \<Longrightarrow>
     minScore \<le> scoreOf r \<and> relevanceScore r = JNum (scoreOf r)"
  by (erule passFilter_fields) (simp add: scoreOf_def)

lemma passFilter_grounded:
  assumes "passFilter minScore minRatio refTab kws r" and "reason r = JStr rs"
    and "quotedTexts rs \<noteq> []"
  shows "\<exists>tabData. refTab (refOf r) = Some tabData \<and> foundMatch tabData (quotedTexts rs)"
  using assms(1)
proof (rule passFilter_fields)
  fix rf sc rs' tabData
  assume "ref r = JStr rf" "reason r = JStr rs'" "refTab rf = Some tabData"
    "quotedTexts rs' = [] \<or> foundMatch tabData (quotedTexts rs')"
  with assms(2,3) show ?thesis by (auto simp: refOf_def)
qed

lemma set_sortByScore: "set (sortByScore rs) = set rs"
  by (simp add: sortByScore_def)

lemma validResults_cases:
  "validResults summaries query raw =
     (if filter (passFilter 6 (2 / 5) (refToTab summaries) (extractKeywords query)) raw = []
      then sortByScore (filter (passFilter 4 (3 / 10) (refToTab summaries) (extractKeywords query)) raw)
      else sortByScore (filter (passFilter 6 (2 / 5) (refToTab summaries) (extractKeywords query)) raw))"
proof -
  have "sortByScore xs = [] \<longleftrightarrow> xs = []" for xs
    using set_sortByScore[of xs] by (metis set_empty)
  then show ?thesis
    by (simp add: validResults_def Let_def)
qed

lemma validResults_passed:
  assumes "r \<in> set (validResults summaries query raw)"
  shows "r \<in> set raw \<and>
        (passFilter 6 (2 / 5) (refToTab summaries) (extractKeywords query) r \<or>
         passFilter 4 (3 / 10) (refToTab summaries) (extractKeywords query) r)"
  using assms by (auto simp: validResults_cases set_sortByScore split: if_splits)

text \<open>
  C1 (as amended). A candidate whose reason has at least one single-quoted substring is not
  among the validated results when none of its quoted substrings of length at least 5 (after
  removing the quotes, lower-casing and trimming) occurs in the title, summary, URL or joined
  tags of the document its ref names, as the prompt listed them; no relevance score, 10
  included, saves it.
\<close>

theorem ungrounded_candidate_rejected:
  assumes "reason r = JStr rs" and "quotedTexts rs \<noteq> []"
    and "\<forall>tabData. refToTab summaries (refOf r) = Some tabData \<longrightarrow>
           (\<forall>q\<in>set (quotedTexts rs).
              5 \<le> length (cleanQuoted q) \<longrightarrow> \<not> matchesThisTab tabData (cleanQuoted q))"
  shows "r \<notin> set (validResults summaries query parsedResults)"
proof
  assume "r \<in> set (validResults summaries query parsedResults)"
  then obtain minScore minRatio where
    "passFilter minScore minRatio (refToTab summaries) (extractKeywords query) r"
    using validResults_passed by blast
  from passFilter_grounded[OF this assms(1,2)] obtain tabData where
    "refToTab summaries (refOf r) = Some tabData" "foundMatch tabData (quotedTexts rs)"
    by blast
  with assms(3) show False by (auto simp: foundMatch_iff)
qed

text \<open>A candidate with score 10 whose only quotation is nowhere in the document.\<close>

theorem ungrounded_candidate_rejected_witness:
  "relevanceScore candUngrounded = JNum 10
   \<and> map cleanQuoted (quotedTexts (''Keywords: javascript tutorial in title: '' @ inQuotes ''python course''))
       = [''python course'']
   \<and> refToTab [docJS] (refOf candUngrounded) = Some tabJS
   \<and> \<not> matchesThisTab tabJS ''python course''
   \<and> candUngrounded \<notin> set (validResults [docJS] ''javascript tutorial'' [candUngrounded])"
proof -
  let ?rs = "''Keywords: javascript tutorial in title: '' @ inQuotes ''python course''"
  have r: "reason candUngrounded = JStr ?rs" by (simp add: candUngrounded_def)
  have s: "relevanceScore candUngrounded = JNum 10" by (simp add: candUngrounded_def)
  have q: "quotedTexts ?rs = [inQuotes ''python course'']" by code_simp
  have c: "cleanQuoted (inQuotes ''python course'') = ''python course''" by code_simp
  have t: "refToTab [docJS] (refOf candUngrounded) = Some tabJS" by code_simp
  have m: "\<not> matchesThisTab tabJS ''python course''" by code_simp
  have h2: "quotedTexts ?rs \<noteq> []" unfolding q by simp
  have h3: "\<forall>tabData. refToTab [docJS] (refOf candUngrounded) = Some tabData \<longrightarrow>
           (\<forall>q\<in>set (quotedTexts ?rs).
              5 \<le> length (cleanQuoted q) \<longrightarrow> \<not> matchesThisTab tabData (cleanQuoted q))"
    unfolding q t by (simp add: c m)
  from ungrounded_candidate_rejected[OF r h2 h3] show ?thesis
    unfolding q by (simp add: s c t m)
qed

text \<open>
  A candidate with two quotations, the first from the document's title and tags, the second
  nowhere in the document: the first match ends the check, and the candidate is kept.
\<close>

theorem ungrounded_quote_accepted_counterexample:
  "map cleanQuoted
     (quotedTexts (''Keywords: '' @ inQuotes ''javascript'' @ '' in title: '' @ inQuotes ''python course''))
       = [''javascript'', ''python course'']
   \<and> refToTab [docJS] ''tab1'' = Some tabJS
   \<and> \<not> matchesThisTab tabJS ''python course''
   \<and> validResults [docJS] ''javascript tutorial'' [candTwoQuotes] = [candTwoQuotes]
   \<and> tryOnDeviceSelectFromSummaries [docJS] ''javascript tutorial'' (Answered (Some [candTwoQuotes])) = [7]"
  by code_simp

text \<open>
  C9. A candidate whose reason has at least one single-quoted substring, all of them shorter
  than 5 characters once cleaned, passes neither filter and is not among the validated
  results: the short quotations are skipped, so no match is found.
\<close>

theorem short_quotes_rejected:
  assumes "reason r = JStr rs" and "quotedTexts rs \<noteq> []"
    and "\<forall>q\<in>set (quotedTexts rs). length (cleanQuoted q) < 5"
  shows "\<not> passFilter minScore minRatio refTab queryKeywords r
       \<and> r \<notin> set (validResults summaries query parsedResults)"
proof -
  have no: "\<not> passFilter ms mr rt kws r" for ms mr rt kws
  proof
    assume "passFilter ms mr rt kws r"
    from passFilter_grounded[OF this assms(1,2)] obtain tabData where
      "foundMatch tabData (quotedTexts rs)" by blast
    with assms(3) show False by (auto simp: foundMatch_iff)
  qed
  then show ?thesis using validResults_passed by blast
qed

text \<open>A candidate with score 10 that names both keywords and quotes only \<open>java\<close>.\<close>

theorem short_quotes_rejected_witness:
  "map cleanQuoted (quotedTexts (''Keywords: javascript tutorial in tags: '' @ inQuotes ''java''))
       = [''java'']
   \<and> matchesThisTab tabJS ''java''
   \<and> \<not> passFilter 6 (2 / 5) (refToTab [docJS]) (extractKeywords ''javascript tutorial'') candShortQuotes
   \<and> candShortQuotes \<notin> set (validResults [docJS] ''javascript tutorial'' [candShortQuotes])"
proof -
  let ?rs = "''Keywords: javascript tutorial in tags: '' @ inQuotes ''java''"
  have r: "reason candShortQuotes = JStr ?rs" by (simp add: candShortQuotes_def)
  have q: "quotedTexts ?rs = [inQuotes ''java'']" by code_simp
  have c: "cleanQuoted (inQuotes ''java'') = ''java''" by code_simp
  have m: "matchesThisTab tabJS ''java''" by code_simp
  have h2: "quotedTexts ?rs \<noteq> []" unfolding q by simp
  have h3: "\<forall>q\<in>set (quotedTexts ?rs). length (cleanQuoted q) < 5"
    unfolding q by (simp add: c)
  from short_quotes_rejected[OF r h2 h3] show ?thesis
    unfolding q by (simp add: c m)
qed

text \<open>
  C6. The first pass accepts only candidates with a relevance score of at least 6. When it
  accepts at least one candidate, the validated results are exactly its candidates, sorted, and
  all of them score at least 6; the second pass, with floor 4, over the same raw results gives
  the validated results if and only if the first pass accepted none. Every validated result
  scores at least 4.
\<close>

theorem two_pass_score_floor:
  fixes summaries query parsedResults
  defines "firstPass \<equiv> filter (passFilter 6 (2 / 5) (refToTab summaries) (extractKeywords query)) parsedResults"
    and "secondPass \<equiv> filter (passFilter 4 (3 / 10) (refToTab summaries) (extractKeywords query)) parsedResults"
  shows "(\<forall>r\<in>set firstPass. 6 \<le> scoreOf r)
       \<and> (\<forall>r\<in>set secondPass. 4 \<le> scoreOf r)
       \<and> (firstPass \<noteq> [] \<longrightarrow>
            validResults summaries query parsedResults = sortByScore firstPass
            \<and> (\<forall>r\<in>set (validResults summaries query parsedResults). 6 \<le> scoreOf r))
       \<and> (firstPass = [] \<longrightarrow>
            validResults summaries query parsedResults = sortByScore secondPass)
       \<and> (\<forall>r\<in>set (validResults summaries query parsedResults).
            4 \<le> scoreOf r \<and> relevanceScore r = JNum (scoreOf r))"
proof -
  have f: "\<forall>r\<in>set firstPass. 6 \<le> scoreOf r \<and> relevanceScore r = JNum (scoreOf r)"
    unfolding firstPass_def using passFilter_score by auto
  have s: "\<forall>r\<in>set secondPass. 4 \<le> scoreOf r \<and> relevanceScore r = JNum (scoreOf r)"
    unfolding secondPass_def using passFilter_score by auto
  have v: "validResults summaries query parsedResults =
           (if firstPass = [] then sortByScore secondPass else sortByScore firstPass)"
    unfolding firstPass_def secondPass_def by (rule validResults_cases)
  have a: "\<forall>r\<in>set (validResults summaries query parsedResults).
            4 \<le> scoreOf r \<and> relevanceScore r = JNum (scoreOf r)"
  proof
    fix r assume "r \<in> set (validResults summaries query parsedResults)"
    then have "r \<in> set firstPass \<or> r \<in> set secondPass"
      by (auto simp: v set_sortByScore split: if_splits)
    with f s show "4 \<le> scoreOf r \<and> relevanceScore r = JNum (scoreOf r)" by fastforce
  qed
  from f s v a show ?thesis by (auto simp: set_sortByScore)
qed

text \<open>
  Two raw answers over the same document: with a candidate of score 7 and one of score 5 the
  first pass keeps the 7 alone; with the candidate of score 5 alone the second pass keeps it.
\<close>

theorem two_pass_score_floor_witness:
  "scoreOf candGrounded = 7 \<and> scoreOf candLoose = 5
   \<and> validResults [docJS] ''javascript tutorial'' [candLoose, candGrounded] = [candGrounded]
   \<and> validResults [docJS] ''javascript tutorial'' [candLoose] = [candLoose]"
proof -
  let ?p1 = "passFilter 6 (2 / 5) (refToTab [docJS]) (extractKeywords ''javascript tutorial'')"
  let ?p2 = "passFilter 4 (3 / 10) (refToTab [docJS]) (extractKeywords ''javascript tutorial'')"
  have g: "?p1 candGrounded" by code_simp
  have l1: "\<not> ?p1 candLoose" by code_simp
  have l2: "?p2 candLoose" by code_simp
  have sc: "scoreOf candGrounded = 7" "scoreOf candLoose = 5"
    by (simp_all add: scoreOf_def candGrounded_def candLoose_def)
  have s1: "sortByScore [candGrounded] = [candGrounded]" "sortByScore [candLoose] = [candLoose]"
    by (simp_all add: sortByScore_def)
  from two_pass_score_floor[of "[docJS]" "''javascript tutorial''" "[candLoose, candGrounded]"]
       two_pass_score_floor[of "[docJS]" "''javascript tutorial''" "[candLoose]"]
       g l1 l2 sc s1
  show ?thesis by simp
qed

section \<open>Lexical scoring\<close>

lemma sorted_wrt_sortScored: "sorted_wrt (\<lambda>a b. sc_score a \<ge> sc_score b) (sortScored xs)"
proof -
  have "sorted (map (\<lambda>x. - int (sc_score x)) (sortScored xs))"
    unfolding sortScored_def by (rule sorted_sort_key)
  then show ?thesis by (simp add: sorted_map)
qed

lemma mset_sortScored: "mset (sortScored xs) = mset xs"
  by (simp add: sortScored_def)

text \<open>
  C3. \<open>performFallbackSearch\<close> keeps a scored document exactly when its accumulated score is at
  least \<open>max (termCount * 2) 4\<close>, where \<open>termCount\<close> is the length of the extracted term list;
  the kept documents are in descending order of score and the returned ids are theirs, in that
  order. A 1-term query needs a score of at least 4, a 3-term query at least 6.
\<close>

theorem fallback_threshold_and_order:
  fixes parseURL summaries query fullTextData
  defines "words \<equiv> extractKeywords query"
    and "retained \<equiv> fallbackFiltered parseURL summaries query fullTextData"
  defines "scoredAll \<equiv> map (scoreSummary parseURL fullTextData words) summaries"
  shows "mset retained = filter_mset (\<lambda>x. max (length words * 2) 4 \<le> sc_score x) (mset scoredAll)
       \<and> (\<forall>s\<in>set summaries.
            scoreSummary parseURL fullTextData words s \<in> set retained \<longleftrightarrow>
              max (length words * 2) 4 \<le> sc_score (scoreSummary parseURL fullTextData words s))
       \<and> sorted_wrt (\<lambda>a b. sc_score a \<ge> sc_score b) retained
       \<and> results (performFallbackSearch parseURL summaries query fullTextData) = map sc_id retained
       \<and> (length words = 1 \<longrightarrow> minScoreFor words = 4)
       \<and> (length words = 3 \<longrightarrow> minScoreFor words = 6)"
proof -
  have r: "retained = filter (\<lambda>x. max (length words * 2) 4 \<le> sc_score x) (sortScored scoredAll)"
    unfolding retained_def scoredAll_def words_def fallbackFiltered_def minScoreFor_def Let_def ..
  have m: "mset retained = filter_mset (\<lambda>x. max (length words * 2) 4 \<le> sc_score x) (mset scoredAll)"
    unfolding r by (simp add: mset_sortScored)
  have s: "set retained = {x \<in> set scoredAll. max (length words * 2) 4 \<le> sc_score x}"
    using m by (metis set_mset_filter set_mset_mset)
  have i: "\<forall>s\<in>set summaries.
            scoreSummary parseURL fullTextData words s \<in> set retained \<longleftrightarrow>
              max (length words * 2) 4 \<le> sc_score (scoreSummary parseURL fullTextData words s)"
    unfolding s scoredAll_def by auto
  have o: "sorted_wrt (\<lambda>a b. sc_score a \<ge> sc_score b) retained"
    unfolding r by (rule sorted_wrt_filter) (rule sorted_wrt_sortScored)
  have p: "results (performFallbackSearch parseURL summaries query fullTextData) = map sc_id retained"
    by (simp add: performFallbackSearch_def retained_def Let_def)
  have t: "(length words = 1 \<longrightarrow> minScoreFor words = 4) \<and> (length words = 3 \<longrightarrow> minScoreFor words = 6)"
    by (simp add: minScoreFor_def)
  from m i o p t show ?thesis by blast
qed

text \<open>Three documents, out of score order, and a query of three terms.\<close>

theorem fallback_threshold_and_order_witness:
  "length (extractKeywords ''web docs news'') = 3
   \<and> map sc_score (map (scoreSummary exampleURL None (extractKeywords ''web docs news''))
         [docNews, docJS, docMDN]) = [6, 0, 24]
   \<and> map sc_score (fallbackFiltered exampleURL [docNews, docJS, docMDN] ''web docs news'' None) = [24, 6]
   \<and> sorted_wrt (\<lambda>a b. sc_score a \<ge> sc_score b)
         (fallbackFiltered exampleURL [docNews, docJS, docMDN] ''web docs news'' None)
   \<and> results (performFallbackSearch exampleURL [docNews, docJS, docMDN] ''web docs news'' None) = [1, 2]
   \<and> minScoreFor (extractKeywords ''web docs news'') = 6"
proof -
  let ?q = "''web docs news''"
  let ?docs = "[docNews, docJS, docMDN]"
  have l: "length (extractKeywords ?q) = 3" by code_simp
  have a: "map sc_score (map (scoreSummary exampleURL None (extractKeywords ?q)) ?docs) = [6, 0, 24]"
    by code_simp
  have f: "map sc_score (fallbackFiltered exampleURL ?docs ?q None) = [24, 6]" by code_simp
  have i: "map sc_id (fallbackFiltered exampleURL ?docs ?q None) = [1, 2]" by code_simp
  note t = fallback_threshold_and_order[of exampleURL ?docs ?q None]
  from t have o: "sorted_wrt (\<lambda>a b. sc_score a \<ge> sc_score b) (fallbackFiltered exampleURL ?docs ?q None)"
    by blast
  from t i have r: "results (performFallbackSearch exampleURL ?docs ?q None) = [1, 2]"
    by simp
  from t l have m: "minScoreFor (extractKeywords ?q) = 6" by blast
  from l a f o r m show ?thesis by blast
qed

section \<open>Summaries\<close>

lemma distinct_uniq_foldl:
  "distinct acc \<Longrightarrow> distinct (foldl (\<lambda>acc x. if x \<in> set acc then acc else acc @ [x]) acc xs)"
  by (induction xs arbitrary: acc) auto

lemma distinct_uniq: "distinct (uniq xs)"
  unfolding uniq_def by (rule distinct_uniq_foldl) simp

lemma length_generateFallbackTags: "length (generateFallbackTags parseURL ttl u) \<le> 3"
  by (simp add: generateFallbackTags_def Let_def)

lemma distinct_generateFallbackTags: "distinct (generateFallbackTags parseURL ttl u)"
  by (simp add: generateFallbackTags_def Let_def distinct_uniq)

lemma length_aiSummary_tags: "length (out_tags (aiSummary safeJsonParse outcome)) \<le> 3"
  by (simp add: aiSummary_def split: prompt_outcome.splits option.splits)

lemma length_cutAt500: "length (cutAt500 s) \<le> 503"
  by (simp add: cutAt500_def)

lemma length_aiSummary: "length (out_summary (aiSummary safeJsonParse outcome)) \<le> 503"
  by (simp add: aiSummary_def length_cutAt500 split: prompt_outcome.splits option.splits)

lemma summarizeItem_summary_bound:
  "length (summary (summarizeItem parseURL safeJsonParse hasSession outcome item)) \<le> 503"
  by (simp add: summarizeItem_def Let_def length_cutAt500 length_aiSummary)

text \<open>
  C10. Every summary record carries at most 3 tags: the tags of the model's answer are cut to
  the first 3, and \<open>generateFallbackTags\<close> returns at most 3 tags, without duplicates.
\<close>

theorem summary_tags_at_most_three:
  "length (tags (summarizeItem parseURL safeJsonParse hasSession outcome item)) \<le> 3
   \<and> (\<forall>s\<in>set (summarizeBatch parseURL safeJsonParse hasSession extracted). length (tags s) \<le> 3)
   \<and> length (generateFallbackTags parseURL ttl u) \<le> 3
   \<and> distinct (generateFallbackTags parseURL ttl u)
   \<and> (p_tags parsed = Some ts \<longrightarrow> p_summary parsed \<noteq> [] \<longrightarrow>
        out_tags (aiSummary (\<lambda>raw. Some parsed) (PromptAnswer raw)) = take 3 ts)"
proof -
  have one: "length (tags (summarizeItem p j h oc it)) \<le> 3" for p j h oc it
    by (simp add: summarizeItem_def Let_def length_generateFallbackTags length_aiSummary_tags)
  then have all: "\<forall>s\<in>set (summarizeBatch parseURL safeJsonParse hasSession extracted). length (tags s) \<le> 3"
    by (auto simp: summarizeBatch_def)
  have ai: "p_tags parsed = Some ts \<longrightarrow> p_summary parsed \<noteq> [] \<longrightarrow>
        out_tags (aiSummary (\<lambda>raw. Some parsed) (PromptAnswer raw)) = take 3 ts"
    by (simp add: aiSummary_def)
  from one all ai length_generateFallbackTags distinct_generateFallbackTags show ?thesis
    by blast
qed

text \<open>An answer with five tags, and the fallback tags of a title that suggests four.\<close>

theorem summary_tags_at_most_three_witness:
  "tags (summarizeItem exampleURL exampleParse True (PromptAnswer ''{}'') longPage)
     = [''shopping'', ''news'', ''deals'']
   \<and> generateFallbackTags exampleURL ''Shop news: watch the video, edit docs'' ''https://news.example.com/''
     = [''news'', ''shopping'', ''video'']
   \<and> length (tags (summarizeItem exampleURL exampleParse True (PromptAnswer ''{}'') longPage)) \<le> 3
   \<and> out_tags (aiSummary (\<lambda>raw. Some \<lparr>p_summary = ''s'', p_tags = Some [''a'', ''b'', ''c'', ''d'']\<rparr>)
                 (PromptAnswer ''{}'')) = [''a'', ''b'', ''c'']"
proof -
  have t1: "tags (summarizeItem exampleURL exampleParse True (PromptAnswer ''{}'') longPage)
     = [''shopping'', ''news'', ''deals'']" by code_simp
  have t2: "generateFallbackTags exampleURL ''Shop news: watch the video, edit docs'' ''https://news.example.com/''
     = [''news'', ''shopping'', ''video'']" by code_simp
  note t = summary_tags_at_most_three[of exampleURL exampleParse True "PromptAnswer ''{}''" longPage
      "[]" "[]" "[]" "\<lparr>p_summary = ''s'', p_tags = Some [''a'', ''b'', ''c'', ''d'']\<rparr>"
      "[''a'', ''b'', ''c'', ''d'']" "''{}''"]
  from t have t3: "length (tags (summarizeItem exampleURL exampleParse True (PromptAnswer ''{}'') longPage)) \<le> 3"
    by blast
  from t have t4: "out_tags (aiSummary (\<lambda>raw. Some \<lparr>p_summary = ''s'', p_tags = Some [''a'', ''b'', ''c'', ''d'']\<rparr>)
                 (PromptAnswer ''{}'')) = [''a'', ''b'', ''c'']"
    by simp
  from t1 t2 t3 t4 show ?thesis by blast
qed

text \<open>
  C4. A page text of 501 characters, summarised without a session, gets a summary of 503
  characters: its first 500 and the three dots; so does a model answer whose summary has 501
  characters. No summary is longer than 503 (\<open>summarizeItem_summary_bound\<close>).
\<close>

theorem summary_exceeds_500:
  "length (item_text longPage) = 501
   \<and> length (summary (summarizeItem exampleURL noParse False PromptFailed longPage)) = 503
   \<and> length (summary (summarizeItem exampleURL longParse True (PromptAnswer ''{}'') longPage)) = 503"
  by (simp add: summarizeItem_def aiSummary_def longPage_def longParse_def cutAt500_def orElse_def Let_def)

section \<open>The search handler\<close>










text \<open>
  C5. Aggressive mode, two tabs, the first of which matches the query. Cancelled at the second
  tab, the selection returns the first tab's id, the tab stays shown and the status reads
  \<open>Found 1 tab (searched all 2 tabs).\<close>; cancelled at the first tab, it returns nothing and the
  status reads \<open>Found 0 tabs (searched all 2 tabs).\<close>. The default mode, cancelled, returns
  the empty list and leaves status and list alone.
\<close>

theorem aggressive_cancel_keeps_partial_results:
  "sel_ids (selectFromSummariesWithAIOrFallback (exampleEnv True [docJS, docMDN] (Answered None) (Some 1))
      [docJS, docMDN] ''javascript'' blankUI) = [7]
   \<and> ui_status (handleSearch (exampleEnv True [docJS, docMDN] (Answered None) (Some 1))
      [docJS, docMDN] ''javascript'' blankUI) = (''Found 1 tab (searched all 2 tabs).'', ''success'')
   \<and> ui_shown (handleSearch (exampleEnv True [docJS, docMDN] (Answered None) (Some 1))
      [docJS, docMDN] ''javascript'' blankUI) = [7]
   \<and> sel_ids (selectFromSummariesWithAIOrFallback (exampleEnv True [docJS, docMDN] (Answered None) (Some 0))
      [docJS, docMDN] ''javascript'' blankUI) = []
   \<and> ui_status (handleSearch (exampleEnv True [docJS, docMDN] (Answered None) (Some 0))
      [docJS, docMDN] ''javascript'' blankUI) = (''Found 0 tabs (searched all 2 tabs).'', ''success'')
   \<and> sel_ids (selectFromSummariesWithAIOrFallback (exampleEnv False [docJS, docMDN] (Answered None) (Some 0))
      [docJS, docMDN] ''javascript'' blankUI) = []
   \<and> ui_status (handleSearch (exampleEnv False [docJS, docMDN] (Answered None) (Some 0))
      [docJS, docMDN] ''javascript'' blankUI) = ui_status blankUI
   \<and> ui_shown (handleSearch (exampleEnv False [docJS, docMDN] (Answered None) (Some 0))
      [docJS, docMDN] ''javascript'' blankUI) = []"
  by code_simp


end
